theory Spec2Isabelle
  imports Complex_Main "HOL-Library.Sublist" "HOL-Library.Multiset"
begin

section \<open>Data model (models.py)\<close>

text \<open>
  The enums of \<^verbatim>\<open>models.py\<close> are datatypes and the \<^verbatim>\<open>Paper\<close> dataclass is a
  record with the sixteen fields of the source, in the source's order. Python's
  unbounded integers are \<open>int\<close>. Python's floats are modelled by exact real
  arithmetic: rounding and NaN are outside the model. Strings are byte lists.
\<close>

datatype DownloadStatus = PENDING | DOWNLOADING | DOWNLOADED | FAILED | SKIPPED

datatype JournalType = ELSEVIER | NON_ELSEVIER | UNKNOWN

record Paper =
  title :: string
  doi :: string
  authors :: "string list"
  journal :: string
  year :: int
  citation_count :: int
  abstract :: string
  paper_index :: int
  relevance_score :: real
  priority_score :: real
  is_selected :: bool
  journal_type :: JournalType
  download_status :: DownloadStatus
  pdf_filename :: string
  pdf_size :: int
  analysis_completed :: bool

text \<open>
  Papers are objects that several lists share and that the download manager mutates in
  place, so a list of papers is a list of references into a store. Python's
  \<^verbatim>\<open>p in xs\<close> on a dataclass is identity or field-wise equality.
\<close>

type_synonym ref = nat

type_synonym store = "ref \<Rightarrow> Paper"

definition paper_in :: "store \<Rightarrow> ref \<Rightarrow> ref list \<Rightarrow> bool" where
  "paper_in s p xs = list_ex (\<lambda>q. q = p \<or> s q = s p) xs"

text \<open>
  Exceptions. \<open>Error msg\<close> stands for any instance of a subclass of
  \<^verbatim>\<open>Exception\<close> with message \<open>msg\<close>; \<open>IndexError\<close> is the one the model raises
  itself; \<open>Interrupt\<close> stands for a \<^verbatim>\<open>BaseException\<close> that is no
  \<^verbatim>\<open>Exception\<close> (\<^verbatim>\<open>KeyboardInterrupt\<close>, \<^verbatim>\<open>asyncio.CancelledError\<close>), which
  \<^verbatim>\<open>except Exception\<close> lets through.
\<close>

datatype exn = IndexError | Error string | Interrupt

fun is_Exception :: "exn \<Rightarrow> bool" where
  "is_Exception IndexError = True"
| "is_Exception (Error msg) = True"
| "is_Exception Interrupt = False"

text \<open>Python's slice \<^verbatim>\<open>xs[:n]\<close>: a negative \<open>n\<close> counts from the end.\<close>

definition slice_to :: "int \<Rightarrow> 'a list \<Rightarrow> 'a list" where
  "slice_to n xs = (if 0 \<le> n then take (nat n) xs else take (length xs - nat (- n)) xs)"

section \<open>Priority scoring (SmartDownloadManager.\_calculate\_priority\_scores)\<close>

text \<open>The body of the scoring loop for one paper: the value assigned to \<^verbatim>\<open>score\<close>.\<close>

definition score_of :: "Paper \<Rightarrow> real" where
  "score_of paper =
     (let score = 0;
          score = score + relevance_score paper;
          score =
            (if journal_type paper = ELSEVIER then
               (let score = score + 3
                in if 2018 \<le> year paper then score + 1 else score)
             else
               (let score = score + 1;
                    score = (if year paper \<le> 2019 then score + 1 else score)
                in if 2010 \<le> year paper \<and> year paper \<le> 2018 then score + 1 / 2 else score));
          citation_bonus = min (real_of_int (citation_count paper) / 50) 2
      in score + citation_bonus)"

definition set_priority :: "ref \<Rightarrow> store \<Rightarrow> store" where
  "set_priority p s = s(p := (s p)\<lparr>priority_score := score_of (s p)\<rparr>)"

text \<open>
  The whole function: score every paper in place, sort by score descending
  (\<^verbatim>\<open>list.sort\<close> is stable, also with \<^verbatim>\<open>reverse=True\<close>; stable descending order is
  stable ascending order of the negated key), then format the log line, whose
  \<^verbatim>\<open>scored_papers[0]\<close> raises \<^verbatim>\<open>IndexError\<close> on an empty list.
\<close>

definition calculate_priority_scores :: "ref list \<Rightarrow> store \<Rightarrow> (exn + ref list) \<times> store" where
  "calculate_priority_scores papers s =
     (let s' = fold set_priority papers s;
          scored_papers = sort_key (\<lambda>p. - priority_score (s' p)) papers
      in if scored_papers = [] then (Inl IndexError, s') else (Inr scored_papers, s'))"

section \<open>Publisher detection (utils.is\_elsevier\_doi)\<close>

text \<open>\<^verbatim>\<open>str.lower\<close> on ASCII letters; other bytes are left as they are.\<close>

definition lower_char :: "char \<Rightarrow> char" where
  "lower_char c =
     (case map_of (zip ''ABCDEFGHIJKLMNOPQRSTUVWXYZ'' ''abcdefghijklmnopqrstuvwxyz'') c of
        Some d \<Rightarrow> d
      | None \<Rightarrow> c)"

definition lower :: "string \<Rightarrow> string" where
  "lower s = map lower_char s"

definition elsevier_prefixes :: "string list" where
  "elsevier_prefixes =
     [''10.1016/'', ''10.1006/'', ''10.1053/'', ''10.1054/'', ''10.1078/'', ''10.1529/'']"

definition non_elsevier_prefixes :: "string list" where
  "non_elsevier_prefixes =
     [''10.1007/'', ''10.1021/'', ''10.1002/'', ''10.1063/'', ''10.1088/'', ''10.1103/'',
      ''10.1038/'', ''10.1126/'', ''10.3390/'', ''10.1039/'']"

definition is_elsevier_doi :: "string \<Rightarrow> bool" where
  "is_elsevier_doi d =
     (if d = [] then False
      else
        (let doi_lower = lower d
         in if list_ex (\<lambda>p. prefix (lower p) doi_lower) non_elsevier_prefixes then False
            else if list_ex (\<lambda>p. prefix (lower p) doi_lower) elsevier_prefixes then True
            else False))"

section \<open>The environment of a download\<close>

text \<open>
  A destination is a directory and a file name. The two downloaders of
  \<^verbatim>\<open>DownloadManager\<close> and the file system are the environment: each operation reads
  and changes a world \<open>'w\<close> that the model leaves abstract. A downloader is given the
  paper as it is at the call (it does not mutate it) and either raises or returns
  \<^verbatim>\<open>(success, file_size)\<close>. \<open>mkdir\<close> is \<^verbatim>\<open>Path.mkdir(exist_ok=True)\<close>, which may
  raise; \<open>stat_size\<close> is \<^verbatim>\<open>p.stat().st_size if p.exists() else 0\<close>. Printing,
  logging and \<^verbatim>\<open>asyncio.sleep\<close> change nothing the model observes.
\<close>

record Path =
  parent_dir :: string
  file_name :: string

record 'w env =
  elsevier_download_pdf :: "Paper \<Rightarrow> Path \<Rightarrow> 'w \<Rightarrow> (exn + bool \<times> int) \<times> 'w"
  anna_download_pdf :: "Paper \<Rightarrow> Path \<Rightarrow> 'w \<Rightarrow> (exn + bool \<times> int) \<times> 'w"
  mkdir :: "string \<Rightarrow> 'w \<Rightarrow> exn option \<times> 'w"
  stat_size :: "Path \<Rightarrow> 'w \<Rightarrow> int"

section \<open>DownloadManager.download\_paper\<close>

definition set_status :: "ref \<Rightarrow> DownloadStatus \<Rightarrow> store \<Rightarrow> store" where
  "set_status p st s = s(p := (s p)\<lparr>download_status := st\<rparr>)"

definition mark_downloaded :: "ref \<Rightarrow> string \<Rightarrow> int \<Rightarrow> store \<Rightarrow> store" where
  "mark_downloaded p fname fsize s =
     s(p := (s p)\<lparr>download_status := DOWNLOADED, pdf_filename := fname, pdf_size := fsize\<rparr>)"

text \<open>The handler \<^verbatim>\<open>except Exception\<close> of \<^verbatim>\<open>download_paper\<close>.\<close>

definition download_paper_except :: "ref \<Rightarrow> exn \<Rightarrow> store \<Rightarrow> 'w \<Rightarrow> (exn + bool) \<times> store \<times> 'w" where
  "download_paper_except p e s w =
     (if is_Exception e then (Inr False, set_status p FAILED s, w) else (Inl e, s, w))"

definition download_paper :: "'w env \<Rightarrow> ref \<Rightarrow> Path \<Rightarrow> store \<Rightarrow> 'w \<Rightarrow> (exn + bool) \<times> store \<times> 'w" where
  "download_paper E p output_path s w =
     (if doi (s p) = [] then (Inr False, set_status p FAILED s, w)
      else
        (let s1 = set_status p DOWNLOADING s;
             (r1, w1) =
               (if is_elsevier_doi (doi (s1 p)) then elsevier_download_pdf E (s1 p) output_path w
                else anna_download_pdf E (s1 p) output_path w)
         in case r1 of
              Inl e \<Rightarrow> download_paper_except p e s1 w1
            | Inr (success, file_size) \<Rightarrow>
                if success then
                  (Inr True, mark_downloaded p (file_name output_path) file_size s1, w1)
                else if is_elsevier_doi (doi (s1 p)) then
                  (let (r2, w2) = anna_download_pdf E (s1 p) output_path w1
                   in case r2 of
                        Inl e \<Rightarrow> download_paper_except p e s1 w2
                      | Inr (success2, file_size2) \<Rightarrow>
                          if success2 then
                            (Inr True, mark_downloaded p (file_name output_path) file_size2 s1, w2)
                          else (Inr False, set_status p FAILED s1, w2))
                else (Inr False, set_status p FAILED s1, w1)))"

section \<open>SmartDownloadManager.\_download\_single\_paper\<close>

text \<open>
  What every branch does with the result of \<^verbatim>\<open>download_paper\<close>: on success set the
  status and return \<^verbatim>\<open>True\<close>, else return \<^verbatim>\<open>False\<close>. The file size read there is only
  printed.
\<close>

definition after_download :: "ref \<Rightarrow> (exn + bool) \<times> store \<times> 'w \<Rightarrow> (exn + bool) \<times> store \<times> 'w" where
  "after_download p r =
     (case r of
        (Inl e, s, w) \<Rightarrow> (Inl e, s, w)
      | (Inr success, s, w) \<Rightarrow>
          if success then (Inr True, set_status p DOWNLOADED s, w) else (Inr False, s, w))"

text \<open>The inner \<^verbatim>\<open>finally\<close>: the journal type saved before the attempt is written back.\<close>

definition restore_journal_type :: "ref \<Rightarrow> JournalType \<Rightarrow> (exn + bool) \<times> store \<times> 'w \<Rightarrow> (exn + bool) \<times> store \<times> 'w" where
  "restore_journal_type p original_journal_type r =
     (case r of (res, s, w) \<Rightarrow> (res, s(p := (s p)\<lparr>journal_type := original_journal_type\<rparr>), w))"

text \<open>The outer \<^verbatim>\<open>except Exception\<close> (return \<^verbatim>\<open>False\<close>) and \<^verbatim>\<open>finally\<close>.\<close>

definition single_except :: "(exn + bool) \<times> store \<times> 'w \<Rightarrow> (exn + bool) \<times> store \<times> 'w" where
  "single_except r =
     (case r of
        (Inl e, s, w) \<Rightarrow> if is_Exception e then (Inr False, s, w) else (Inl e, s, w)
      | (Inr b, s, w) \<Rightarrow> (Inr b, s, w))"

definition single_finally :: "ref \<Rightarrow> (exn + bool) \<times> store \<times> 'w \<Rightarrow> (exn + bool) \<times> store \<times> 'w" where
  "single_finally p r =
     (case r of (res, s, w) \<Rightarrow>
        (res, if download_status (s p) = DOWNLOADING then set_status p FAILED s else s, w))"

definition download_single_paper :: "'w env \<Rightarrow> bool \<Rightarrow> ref \<Rightarrow> Path \<Rightarrow> store \<Rightarrow> 'w \<Rightarrow> (exn + bool) \<times> store \<times> 'w" where
  "download_single_paper E within_institutional_ip p pdf_path s w =
     (let s0 = set_status p DOWNLOADING s;
          is_elsevier_journal = is_elsevier_doi (doi (s0 p))
      in single_finally p (single_except
           (if within_institutional_ip then
              (if is_elsevier_journal then after_download p (download_paper E p pdf_path s0 w)
               else after_download p (download_paper E p pdf_path s0 w))
            else
              (let original_journal_type = journal_type (s0 p);
                   s1 = s0(p := (s0 p)\<lparr>journal_type := NON_ELSEVIER\<rparr>)
               in restore_journal_type p original_journal_type
                    (after_download p (download_paper E p pdf_path s1 w))))))"

section \<open>Destination paths\<close>

text \<open>
  The destination of a paper is
  \<^verbatim>\<open>workspace_dir / f"{material_id}-pdf" / f"paper_{paper_index:02d}_{safe(title[:30])}.pdf"\<close>.
  \<open>fmt_02d\<close> is the format \<^verbatim>\<open>:02d\<close>; \<open>safe_filename\<close> is
  \<^verbatim>\<open>SmartDownloadManager._safe_filename\<close>, with \<^verbatim>\<open>\s\<close> read on ASCII.
\<close>

fun decimal :: "nat \<Rightarrow> string" where
  "decimal n =
     (if n < 10 then [''0123456789'' ! n]
      else decimal (n div 10) @ [''0123456789'' ! (n mod 10)])"

definition fmt_02d :: "int \<Rightarrow> string" where
  "fmt_02d i =
     (if i < 0 then CHR ''-'' # decimal (nat (- i))
      else (let d = decimal (nat i) in replicate (2 - length d) CHR ''0'' @ d))"

definition unsafe_chars :: "char list" where
  "unsafe_chars =
     [CHR ''<'', CHR ''>'', CHR '':'', CHR 0x22, CHR ''/'', CHR 0x5C, CHR ''|'', CHR ''?'', CHR ''*'']"

definition is_space :: "char \<Rightarrow> bool" where
  "is_space c = (c \<in> set [CHR '' '', CHR 0x09, CHR 0x0A, CHR 0x0B, CHR 0x0C, CHR 0x0D,
                             CHR 0x1C, CHR 0x1D, CHR 0x1E, CHR 0x1F])"

function sub_spaces :: "string \<Rightarrow> string" where
  "sub_spaces [] = []"
| "sub_spaces (c # cs) =
     (if is_space c then CHR ''_'' # sub_spaces (dropWhile is_space cs) else c # sub_spaces cs)"
  by pat_completeness auto
termination
  by (relation "measure length") (auto simp: length_dropWhile_le less_Suc_eq_le)

definition safe_filename :: "string \<Rightarrow> string" where
  "safe_filename text =
     take 50 (sub_spaces (map (\<lambda>c. if c \<in> set unsafe_chars then CHR ''_'' else c) text))"

definition pdf_path_of :: "string \<Rightarrow> string \<Rightarrow> Paper \<Rightarrow> Path" where
  "pdf_path_of workspace_dir material_id paper =
     \<lparr>parent_dir = workspace_dir @ ''/'' @ material_id @ ''-pdf'',
      file_name = ''paper_'' @ fmt_02d (paper_index paper) @ ''_''
                    @ safe_filename (take 30 (title paper)) @ ''.pdf''\<rparr>"

section \<open>The phases of SmartDownloadManager\<close>

text \<open>
  The loop of \<^verbatim>\<open>_priority_download_phase\<close> over the sorted papers, with the list
  \<^verbatim>\<open>successful_downloads\<close> built so far. An exception of \<^verbatim>\<open>mkdir\<close> or of the attempt
  leaves the loop and the phase.
\<close>

fun priority_loop :: "'w env \<Rightarrow> bool \<Rightarrow> string \<Rightarrow> string \<Rightarrow> int \<Rightarrow> ref list \<Rightarrow> ref list \<Rightarrow> store \<Rightarrow> 'w \<Rightarrow> (exn + ref list) \<times> store \<times> 'w" where
  "priority_loop E inst workspace_dir material_id target_count [] successful_downloads s w =
     (Inr successful_downloads, s, w)"
| "priority_loop E inst workspace_dir material_id target_count (p # rest) successful_downloads s w =
     (let s1 = set_status p DOWNLOADING s;
          pdf_path = pdf_path_of workspace_dir material_id (s1 p);
          (made, w1) = mkdir E (parent_dir pdf_path) w
      in case made of
           Some e \<Rightarrow> (Inl e, s1, w1)
         | None \<Rightarrow>
             (case download_single_paper E inst p pdf_path s1 w1 of
                (Inl e, s2, w2) \<Rightarrow> (Inl e, s2, w2)
              | (Inr success, s2, w2) \<Rightarrow>
                  if success then
                    (let s3 = mark_downloaded p (file_name pdf_path) (stat_size E pdf_path w2) s2;
                         successful_downloads = successful_downloads @ [p]
                     in if target_count \<le> int (length successful_downloads)
                        then (Inr successful_downloads, s3, w2)
                        else priority_loop E inst workspace_dir material_id target_count rest
                               successful_downloads s3 w2)
                  else priority_loop E inst workspace_dir material_id target_count rest
                         successful_downloads (set_status p FAILED s2) w2))"

definition priority_download_phase :: "'w env \<Rightarrow> bool \<Rightarrow> ref list \<Rightarrow> string \<Rightarrow> string \<Rightarrow> int \<Rightarrow> store \<Rightarrow> 'w \<Rightarrow> (exn + ref list) \<times> store \<times> 'w" where
  "priority_download_phase E inst papers workspace_dir material_id target_count s w =
     (case calculate_priority_scores papers s of
        (Inl e, s1) \<Rightarrow> (Inl e, s1, w)
      | (Inr priority_papers, s1) \<Rightarrow>
          priority_loop E inst workspace_dir material_id target_count priority_papers [] s1 w)"

text \<open>The loop of \<^verbatim>\<open>_supplementation_phase\<close>: the same, without the \<^verbatim>\<open>mkdir\<close>.\<close>

fun supplementation_loop :: "'w env \<Rightarrow> bool \<Rightarrow> string \<Rightarrow> string \<Rightarrow> int \<Rightarrow> ref list \<Rightarrow> ref list \<Rightarrow> store \<Rightarrow> 'w \<Rightarrow> (exn + ref list) \<times> store \<times> 'w" where
  "supplementation_loop E inst workspace_dir material_id needed_count [] successful_downloads s w =
     (Inr successful_downloads, s, w)"
| "supplementation_loop E inst workspace_dir material_id needed_count (p # rest) successful_downloads s w =
     (let s1 = set_status p DOWNLOADING s;
          pdf_path = pdf_path_of workspace_dir material_id (s1 p)
      in case download_single_paper E inst p pdf_path s1 w of
           (Inl e, s2, w2) \<Rightarrow> (Inl e, s2, w2)
         | (Inr success, s2, w2) \<Rightarrow>
             if success then
               (let s3 = mark_downloaded p (file_name pdf_path) (stat_size E pdf_path w2) s2;
                    successful_downloads = successful_downloads @ [p]
                in if needed_count \<le> int (length successful_downloads)
                   then (Inr successful_downloads, s3, w2)
                   else supplementation_loop E inst workspace_dir material_id needed_count rest
                          successful_downloads s3 w2)
             else supplementation_loop E inst workspace_dir material_id needed_count rest
                    successful_downloads (set_status p FAILED s2) w2)"

definition supplementation_phase :: "'w env \<Rightarrow> bool \<Rightarrow> ref list \<Rightarrow> string \<Rightarrow> string \<Rightarrow> int \<Rightarrow> store \<Rightarrow> 'w \<Rightarrow> (exn + ref list) \<times> store \<times> 'w" where
  "supplementation_phase E inst remaining_papers workspace_dir material_id needed_count s w =
     (if remaining_papers = [] \<or> needed_count \<le> 0 then (Inr [], s, w)
      else
        (case calculate_priority_scores remaining_papers s of
           (Inl e, s1) \<Rightarrow> (Inl e, s1, w)
         | (Inr scored_papers, s1) \<Rightarrow>
             supplementation_loop E inst workspace_dir material_id needed_count scored_papers [] s1 w))"

text \<open>
  \<^verbatim>\<open>_precise_selection\<close>: the papers outside the selection are marked in the order of
  \<^verbatim>\<open>all_downloads\<close>, each membership test reading the store as it is by then; the
  selected papers are then numbered by \<^verbatim>\<open>enumerate(selected, 1)\<close>.
\<close>

definition skip_unselected :: "ref list \<Rightarrow> ref \<Rightarrow> store \<Rightarrow> store" where
  "skip_unselected selected p s = (if paper_in s p selected then s else set_status p SKIPPED s)"

definition set_index :: "nat \<times> ref \<Rightarrow> store \<Rightarrow> store" where
  "set_index ip s = (case ip of (idx, p) \<Rightarrow> s(p := (s p)\<lparr>paper_index := int idx\<rparr>))"

definition precise_selection :: "ref list \<Rightarrow> int \<Rightarrow> store \<Rightarrow> (exn + ref list) \<times> store" where
  "precise_selection all_downloads target_count s =
     (if int (length all_downloads) \<le> target_count then (Inr all_downloads, s)
      else
        (case calculate_priority_scores all_downloads s of
           (Inl e, s1) \<Rightarrow> (Inl e, s1)
         | (Inr scored_downloads, s1) \<Rightarrow>
             (let selected = slice_to target_count scored_downloads;
                  s2 = fold (skip_unselected selected) all_downloads s1;
                  s3 = fold set_index (List.enumerate 1 selected) s2
              in (Inr selected, s3))))"

section \<open>SmartDownloadManager.ensure\_target\_downloads\<close>

definition ensure_target_downloads :: "'w env \<Rightarrow> bool \<Rightarrow> ref list \<Rightarrow> string \<Rightarrow> string \<Rightarrow> int \<Rightarrow> store \<Rightarrow> 'w \<Rightarrow> (exn + ref list) \<times> store \<times> 'w" where
  "ensure_target_downloads E inst papers workspace_dir material_id target_count s w =
     (case priority_download_phase E inst papers workspace_dir material_id target_count s w of
        (Inl e, s1, w1) \<Rightarrow> (Inl e, s1, w1)
      | (Inr priority_downloads, s1, w1) \<Rightarrow>
          if target_count \<le> int (length priority_downloads)
          then (Inr (slice_to target_count priority_downloads), s1, w1)
          else
            (let remaining_needed = target_count - int (length priority_downloads);
                 remaining_papers = filter (\<lambda>p. \<not> paper_in s1 p priority_downloads) papers
             in case supplementation_phase E inst remaining_papers workspace_dir material_id
                       remaining_needed s1 w1 of
                  (Inl e, s2, w2) \<Rightarrow> (Inl e, s2, w2)
                | (Inr supplemental_downloads, s2, w2) \<Rightarrow>
                    (let all_downloads = priority_downloads @ supplemental_downloads
                     in if target_count \<le> int (length all_downloads)
                        then (case precise_selection all_downloads target_count s2 of
                                (res, s3) \<Rightarrow> (res, s3, w2))
                        else (Inr all_downloads, s2, w2))))"

text \<open>
  An environment is quiet when its downloaders raise nothing that passes
  \<^verbatim>\<open>except Exception\<close> and its directories can always be made.
\<close>

definition quiet :: "'w env \<Rightarrow> bool" where
  "quiet E =
     (\<forall>paper out w.
        (case fst (elsevier_download_pdf E paper out w) of Inl e \<Rightarrow> is_Exception e | Inr r \<Rightarrow> True)
      \<and> (case fst (anna_download_pdf E paper out w) of Inl e \<Rightarrow> is_Exception e | Inr r \<Rightarrow> True)
      \<and> fst (mkdir E (parent_dir out) w) = None)"

section \<open>Retrying (utils.retry\_on\_failure)\<close>

text \<open>
  The wrapped coroutine is called once per attempt; \<open>func k\<close> is what its call number
  \<open>k\<close> (from 0) does: raise or return. The wrapper's loop runs over
  \<^verbatim>\<open>range(max_retries)\<close>; the first argument of \<open>retry_loop\<close> counts the iterations
  left. The result comes with the number of calls made and the list of the delays slept.
\<close>

fun retry_loop :: "nat \<Rightarrow> (nat \<Rightarrow> exn + 'a) \<Rightarrow> int \<Rightarrow> real \<Rightarrow> nat \<Rightarrow> exn \<Rightarrow> real list \<Rightarrow> (exn + 'a) \<times> nat \<times> real list" where
  "retry_loop 0 func max_retries delay attempt last_exception slept =
     (Inl last_exception, attempt, slept)"
| "retry_loop (Suc left) func max_retries delay attempt last_exception slept =
     (case func attempt of
        Inr v \<Rightarrow> (Inr v, Suc attempt, slept)
      | Inl e \<Rightarrow>
          if is_Exception e then
            retry_loop left func max_retries delay (Suc attempt) e
              (if int attempt < max_retries - 1 then slept @ [delay * 2 ^ attempt] else slept)
          else (Inl e, Suc attempt, slept))"

definition retry_on_failure :: "int \<Rightarrow> real \<Rightarrow> (nat \<Rightarrow> exn + 'a) \<Rightarrow> (exn + 'a) \<times> nat \<times> real list" where
  "retry_on_failure max_retries delay func =
     retry_loop (nat max_retries) func max_retries delay 0 (Error ''No attempts made'') []"

text \<open>Python's \<^verbatim>\<open>needle in haystack\<close> on strings and bytes.\<close>

fun contains :: "'a list \<Rightarrow> 'a list \<Rightarrow> bool" where
  "contains needle [] = (needle = [])"
| "contains needle (c # cs) = (prefix needle (c # cs) \<or> contains needle cs)"

section \<open>Float arithmetic\<close>

text \<open>
  The timestamps of the rate limiter are Python floats, that is IEEE binary64 numbers,
  and the limiter compares differences of them with 60: there the rounding decides. A
  float is modelled by the real number it denotes, and an operation returns the exact
  result rounded to the nearest number with a 53-bit significand, ties to even.
  \<open>binade x\<close> is the exponent \<open>e\<close> with \<open>2 ^ e \<le> \<bar>x\<bar> < 2 ^ (e + 1)\<close>. Overflow and
  subnormal numbers are outside the model.
\<close>

fun bit_length :: "nat \<Rightarrow> nat" where
  "bit_length n = (if n = 0 then 0 else Suc (bit_length (n div 2)))"

definition binade :: "real \<Rightarrow> int" where
  "binade x =
     (if 1 \<le> \<bar>x\<bar> then int (bit_length (nat \<lfloor>\<bar>x\<bar>\<rfloor>)) - 1
      else - int (bit_length (nat \<lceil>1 / \<bar>x\<bar>\<rceil> - 1)))"

definition pow2 :: "int \<Rightarrow> real" where
  "pow2 k = (if 0 \<le> k then 2 ^ nat k else 1 / 2 ^ nat (- k))"

definition round_half_even :: "real \<Rightarrow> int" where
  "round_half_even y =
     (let f = \<lfloor>y\<rfloor>; r = y - of_int f
      in if r < 1 / 2 then f else if 1 / 2 < r then f + 1 else if even f then f else f + 1)"

definition round_double :: "real \<Rightarrow> real" where
  "round_double x =
     (if x = 0 then 0
      else (let u = pow2 (binade x - 52) in of_int (round_half_even (x / u)) * u))"

definition fsub :: "real \<Rightarrow> real \<Rightarrow> real" where
  "fsub a b = round_double (a - b)"

definition fadd :: "real \<Rightarrow> real \<Rightarrow> real" where
  "fadd a b = round_double (a + b)"

section \<open>Rate limiting (utils.RateLimiter)\<close>

text \<open>
  The limiter's state is the object's three attributes. \<^verbatim>\<open>wait_if_needed\<close> reads the
  clock once on entry (\<open>now\<close>) and once more after the sleep (\<open>woke\<close>); both readings
  are given by the environment. It sleeps at most once and then records the new
  timestamp without testing the ceiling again.
\<close>

record RateLimiter =
  calls_per_minute :: int
  calls :: "real list"
  last_warning :: real

definition RateLimiter_init :: "int \<Rightarrow> RateLimiter" where
  "RateLimiter_init n = \<lparr>calls_per_minute = n, calls = [], last_warning = 0\<rparr>"

definition recent :: "real \<Rightarrow> real list \<Rightarrow> real list" where
  "recent now cs = filter (\<lambda>call_time. fsub now call_time < 60) cs"

definition wait_if_needed :: "real \<Rightarrow> real \<Rightarrow> RateLimiter \<Rightarrow> (exn + unit) \<times> RateLimiter" where
  "wait_if_needed now woke rl =
     (let calls1 = recent now (calls rl)
      in if calls_per_minute rl \<le> int (length calls1) then
           (case calls1 of
              [] \<Rightarrow> (Inl IndexError, rl\<lparr>calls := calls1\<rparr>)
            | first_call # _ \<Rightarrow>
                (let sleep_time = fsub 60 (fsub now first_call)
                 in if 0 < sleep_time then
                      (let warned = (if 30 < fsub now (last_warning rl) then now
                                     else last_warning rl);
                           now2 = woke;
                           calls2 = recent now2 calls1
                       in (Inr (), rl\<lparr>calls := calls2 @ [now2], last_warning := warned\<rparr>))
                    else (Inr (), rl\<lparr>calls := calls1 @ [now]\<rparr>)))
         else (Inr (), rl\<lparr>calls := calls1 @ [now]\<rparr>))"

text \<open>
  A sequence of calls on one instance. Each entry of the schedule gives the two clock
  readings of a call. The result is the list of the timestamps recorded, in order; a
  call that raises ends the sequence.
\<close>

fun run_calls :: "(real \<times> real) list \<Rightarrow> RateLimiter \<Rightarrow> real list \<Rightarrow> real list" where
  "run_calls [] rl granted = granted"
| "run_calls ((now, woke) # rest) rl granted =
     (case wait_if_needed now woke rl of
        (Inl e, rl') \<Rightarrow> granted
      | (Inr u, rl') \<Rightarrow> run_calls rest rl' (granted @ [last (calls rl')]))"

section \<open>The hash archive's download steps (AnnaArchiveDownloader)\<close>

text \<open>
  A response is its body and its \<^verbatim>\<open>content-type\<close> header (empty when absent). The
  network answers a GET on a URL with a response or raises; the files are a map from
  destinations to contents, and writing, reading back and unlinking a file succeed.
\<close>

record Response =
  content :: string
  content_type :: string

type_synonym files = "Path \<Rightarrow> string option"

definition base_url :: string where
  "base_url = ''https://annas-archive.org''"

definition pdf_magic :: string where
  "pdf_magic = ''%PDF''"

fun download_by_md5_loop :: "(string \<Rightarrow> exn + Response) \<Rightarrow> string list \<Rightarrow> Path \<Rightarrow> files \<Rightarrow> (exn + bool \<times> int) \<times> files" where
  "download_by_md5_loop net [] output_path fs = (Inr (False, 0), fs)"
| "download_by_md5_loop net (endpoint # rest) output_path fs =
     (case net endpoint of
        Inl e \<Rightarrow>
          if is_Exception e then download_by_md5_loop net rest output_path fs else (Inl e, fs)
      | Inr response \<Rightarrow>
          (let ctype = lower (content_type response);
               is_pdf = (prefix pdf_magic (content response)
                         \<or> contains ''application/pdf'' ctype
                         \<or> 1000 < length (content response))
           in if is_pdf then
                (Inr (True, int (length (content response))),
                 fs(output_path := Some (content response)))
              else download_by_md5_loop net rest output_path fs))"

definition download_by_md5 :: "(string \<Rightarrow> exn + Response) \<Rightarrow> string \<Rightarrow> Path \<Rightarrow> files \<Rightarrow> (exn + bool \<times> int) \<times> files" where
  "download_by_md5 net md5_hash output_path fs =
     download_by_md5_loop net
       [base_url @ ''/md5/'' @ md5_hash,
        base_url @ ''/fast_download/'' @ md5_hash,
        base_url @ ''/download/'' @ md5_hash]
       output_path fs"

definition download_from_url :: "(string \<Rightarrow> exn + Response) \<Rightarrow> string \<Rightarrow> Path \<Rightarrow> files \<Rightarrow> (exn + bool \<times> int) \<times> files" where
  "download_from_url net url output_path fs =
     (case net url of
        Inl e \<Rightarrow> if is_Exception e then (Inr (False, 0), fs) else (Inl e, fs)
      | Inr response \<Rightarrow>
          (let c = content response
           in if c = [] \<or> length c < 1000 then (Inr (False, 0), fs)
              else if prefix pdf_magic c then
                (Inr (True, int (length c)), fs(output_path := Some c))
              else if 50000 < length c then
                (let fs1 = fs(output_path := Some c);
                     first_bytes = (case fs1 output_path of Some d \<Rightarrow> take 10 d | None \<Rightarrow> [])
                 in if contains pdf_magic first_bytes then (Inr (True, int (length c)), fs1)
                    else (Inr (False, 0), fs1(output_path := None)))
              else (Inr (False, 0), fs)))"

section \<open>Concrete inputs\<close>

text \<open>
  Two papers of a pool as the paper selection leaves it (Elsevier papers first, indices
  1 and 2 in pool order): an Elsevier paper of 2020 with relevance 5 and a chemistry
  paper of 2015 with relevance 9. Every other reference of the store holds an empty
  paper.
\<close>

definition mk_paper :: "string \<Rightarrow> int \<Rightarrow> int \<Rightarrow> int \<Rightarrow> real \<Rightarrow> JournalType \<Rightarrow> Paper" where
  "mk_paper d y c i rel jt =
     \<lparr>title = ''Thermal transport'', doi = d, authors = [], journal = ''Acta Materialia'',
      year = y, citation_count = c, abstract = [], paper_index = i, relevance_score = rel,
      priority_score = 0, is_selected = True, journal_type = jt, download_status = PENDING,
      pdf_filename = [], pdf_size = 0, analysis_completed = False\<rparr>"

definition pool2 :: store where
  "pool2 = (\<lambda>_. mk_paper [] 0 0 0 0 UNKNOWN)
     (0 := mk_paper ''10.1016/j.actamat.2020.01'' 2020 10 1 5 ELSEVIER,
      1 := mk_paper ''10.1021/acs.9b01234'' 2015 75 2 9 NON_ELSEVIER)"

text \<open>
  An environment that records which downloader is called for which DOI. The world is
  the list of the calls made so far; \<open>e_ok\<close> and \<open>a_ok\<close> say for which DOIs the Elsevier
  and the Anna Archive downloader succeed. Directories can be made and every
  destination holds 204800 bytes.
\<close>

datatype provider = ElsevierAPI | AnnaArchive

definition recording_env :: "(string \<Rightarrow> bool) \<Rightarrow> (string \<Rightarrow> bool) \<Rightarrow> ((provider \<times> string) list) env" where
  "recording_env e_ok a_ok =
     \<lparr>elsevier_download_pdf =
        (\<lambda>paper out log. (Inr (e_ok (doi paper), if e_ok (doi paper) then 204800 else 0),
                            log @ [(ElsevierAPI, doi paper)])),
      anna_download_pdf =
        (\<lambda>paper out log. (Inr (a_ok (doi paper), if a_ok (doi paper) then 204800 else 0),
                            log @ [(AnnaArchive, doi paper)])),
      mkdir = (\<lambda>d log. (None, log)),
      stat_size = (\<lambda>out log. 204800)\<rparr>"

definition always :: "string \<Rightarrow> bool" where
  "always d = True"

definition demo_path :: Path where
  "demo_path = \<lparr>parent_dir = ''out/mp-149-pdf'', file_name = ''paper_01_Thermal_transport.pdf''\<rparr>"

text \<open>An operation that fails with the same HTTP error at every attempt.\<close>

definition always_raising :: "string \<Rightarrow> nat \<Rightarrow> exn + unit" where
  "always_raising msg = (\<lambda>k. Inl (Error msg))"

text \<open>
  A network that answers every GET with the same HTML page of 1215 bytes, and the hash
  asked for.
\<close>

definition html_page :: string where
  "html_page = ''<!DOCTYPE html>'' @ replicate 1200 CHR '' ''"

definition html_net :: "string \<Rightarrow> exn + Response" where
  "html_net url = Inr \<lparr>content = html_page, content_type = ''text/html''\<rparr>"

definition demo_md5 :: string where
  "demo_md5 = ''0123456789abcdef0123456789abcdef''"

text \<open>The two papers of the pool after both have been downloaded.\<close>

definition downloaded2 :: store where
  "downloaded2 = (\<lambda>p. (pool2 p)\<lparr>download_status := DOWNLOADED\<rparr>)"

text \<open>
  Two papers that are equal field by field, both downloaded: every reference of the
  store holds the same paper.
\<close>

definition twins :: store where
  "twins = (\<lambda>p. (mk_paper ''10.1016/j.actamat.2020.01'' 2020 10 1 5 ELSEVIER)
                    \<lparr>download_status := DOWNLOADED\<rparr>)"

text \<open>
  Clock readings, each a binary64 number: 0.1, 0.30000000000000004 (the float sum of
  0.1 and 0.2) and 60.099999999999994.
\<close>

definition reading_a :: real where
  "reading_a = 3602879701896397 / 2 ^ 55"

definition reading_b :: real where
  "reading_b = 1351079888211149 / 2 ^ 52"

definition reading_c :: real where
  "reading_c = 2114580762538803 / 2 ^ 45"

text \<open>The float difference of the first two readings, and the float 59.8.\<close>

definition reading_gap :: real where
  "reading_gap = 7205759403792795 / 2 ^ 55"

definition reading_nap :: real where
  "reading_nap = 4208050901824307 / 2 ^ 46"

section \<open>Priority scoring: properties\<close>

lemma score_of_priority_irrelevant [simp]: "score_of (p\<lparr>priority_score := v\<rparr>) = score_of p"
  by (simp add: score_of_def Let_def)

lemma fold_set_priority:
  "fold set_priority papers s p =
     (if p \<in> set papers then (s p)\<lparr>priority_score := score_of (s p)\<rparr> else s p)"
  by (induction papers arbitrary: s) (auto simp: set_priority_def)

lemma fold_set_priority_idem:
  "fold set_priority papers (fold set_priority papers s) = fold set_priority papers s"
  by (rule ext) (simp add: fold_set_priority)

lemma calculate_priority_scores_nonempty:
  assumes "papers \<noteq> []"
  shows "calculate_priority_scores papers s =
           (Inr (sort_key (\<lambda>p. - priority_score (fold set_priority papers s p)) papers),
            fold set_priority papers s)"
proof -
  have "length (sort_key (\<lambda>p. - priority_score (fold set_priority papers s p)) papers) \<noteq> 0"
    using assms by simp
  then have "sort_key (\<lambda>p. - priority_score (fold set_priority papers s p)) papers \<noteq> []"
    by (metis list.size(3))
  then show ?thesis
    by (simp add: calculate_priority_scores_def Let_def)
qed

lemma sorted_descending:
  "sorted_wrt (\<lambda>a b. g b \<le> g a) (sort_key (\<lambda>p. - g p) xs)" for g :: "'a \<Rightarrow> real"
proof -
  have "sorted (map (\<lambda>p. - g p) (sort_key (\<lambda>p. - g p) xs))"
    by (rule sorted_sort_key)
  then show ?thesis
    by (simp add: sorted_map)
qed

lemma stable_descending:
  "filter (\<lambda>p. g p = k) (sort_key (\<lambda>p. - g p) xs) = filter (\<lambda>p. g p = k) xs"
  for g :: "'a \<Rightarrow> real"
  using sort_key_stable [of "\<lambda>p. - g p" "- k" xs] by simp

text \<open>
  Claim C7. The priority score of a paper is its relevance score, plus 3 for an Elsevier
  paper and 1 for any other, plus the vintage bonus (Elsevier: 1 from 2018 on; others: 1
  up to 2019 and a further 1/2 from 2010 to 2018), plus the citation count over 50
  capped at 2. It depends on the relevance score, the journal type, the year and the
  citation count only. On a non-empty list the scoring returns the papers sorted by
  descending score, a permutation in which papers of equal score keep the order of the
  pool, and scoring the result again changes neither the store nor the order.
\<close>

theorem C7_priority_score:
  "score_of p =
       relevance_score p
     + (if journal_type p = ELSEVIER then 3 else 1)
     + (if journal_type p = ELSEVIER then (if 2018 \<le> year p then 1 else 0)
        else (if year p \<le> 2019 then 1 else 0)
           + (if 2010 \<le> year p \<and> year p \<le> 2018 then 1 / 2 else 0))
     + min (real_of_int (citation_count p) / 50) 2
   \<and> (relevance_score q = relevance_score p \<and> journal_type q = journal_type p
        \<and> year q = year p \<and> citation_count q = citation_count p
       \<longrightarrow> score_of q = score_of p)
   \<and> (papers \<noteq> [] \<longrightarrow>
        (\<exists>scored s'. calculate_priority_scores papers s = (Inr scored, s')
           \<and> (\<forall>x \<in> set papers. priority_score (s' x) = score_of (s x))
           \<and> sorted_wrt (\<lambda>a b. priority_score (s' b) \<le> priority_score (s' a)) scored
           \<and> mset scored = mset papers
           \<and> (\<forall>k. filter (\<lambda>x. priority_score (s' x) = k) scored
                   = filter (\<lambda>x. priority_score (s' x) = k) papers)
           \<and> calculate_priority_scores papers s' = (Inr scored, s')))"
proof (intro conjI impI)
  show "score_of p =
       relevance_score p
     + (if journal_type p = ELSEVIER then 3 else 1)
     + (if journal_type p = ELSEVIER then (if 2018 \<le> year p then 1 else 0)
        else (if year p \<le> 2019 then 1 else 0)
           + (if 2010 \<le> year p \<and> year p \<le> 2018 then 1 / 2 else 0))
     + min (real_of_int (citation_count p) / 50) 2"
    by (simp add: score_of_def Let_def)
next
  assume "relevance_score q = relevance_score p \<and> journal_type q = journal_type p
        \<and> year q = year p \<and> citation_count q = citation_count p"
  then show "score_of q = score_of p"
    by (simp add: score_of_def Let_def)
next
  assume ne: "papers \<noteq> []"
  define s' where "s' = fold set_priority papers s"
  define scored where "scored = sort_key (\<lambda>p. - priority_score (s' p)) papers"
  have run: "calculate_priority_scores papers s = (Inr scored, s')"
    unfolding scored_def s'_def by (rule calculate_priority_scores_nonempty [OF ne])
  have again: "fold set_priority papers s' = s'"
    unfolding s'_def by (rule fold_set_priority_idem)
  have rerun: "calculate_priority_scores papers s' = (Inr scored, s')"
    using calculate_priority_scores_nonempty [OF ne, of s'] by (simp add: again scored_def)
  have scores: "\<forall>x \<in> set papers. priority_score (s' x) = score_of (s x)"
    by (simp add: s'_def fold_set_priority)
  have desc: "sorted_wrt (\<lambda>a b. priority_score (s' b) \<le> priority_score (s' a)) scored"
    unfolding scored_def by (rule sorted_descending)
  have perm: "mset scored = mset papers"
    by (simp add: scored_def)
  have stable: "\<forall>k. filter (\<lambda>x. priority_score (s' x) = k) scored
                   = filter (\<lambda>x. priority_score (s' x) = k) papers"
    unfolding scored_def by (simp add: stable_descending)
  from run scores desc perm stable rerun
  show "\<exists>scored s'. calculate_priority_scores papers s = (Inr scored, s')
           \<and> (\<forall>x \<in> set papers. priority_score (s' x) = score_of (s x))
           \<and> sorted_wrt (\<lambda>a b. priority_score (s' b) \<le> priority_score (s' a)) scored
           \<and> mset scored = mset papers
           \<and> (\<forall>k. filter (\<lambda>x. priority_score (s' x) = k) scored
                   = filter (\<lambda>x. priority_score (s' x) = k) papers)
           \<and> calculate_priority_scores papers s' = (Inr scored, s')"
    by blast
qed

theorem C7_priority_score_witness:
  "[0, 1] \<noteq> ([] :: ref list)
   \<and> (\<exists>scored s'. calculate_priority_scores [0, 1] pool2 = (Inr scored, s')
           \<and> (\<forall>x \<in> set [0, 1]. priority_score (s' x) = score_of (pool2 x))
           \<and> sorted_wrt (\<lambda>a b. priority_score (s' b) \<le> priority_score (s' a)) scored
           \<and> mset scored = mset [0, 1]
           \<and> (\<forall>k. filter (\<lambda>x. priority_score (s' x) = k) scored
                   = filter (\<lambda>x. priority_score (s' x) = k) [0, 1])
           \<and> calculate_priority_scores [0, 1] s' = (Inr scored, s'))"
  (is "?N \<and> ?E")
proof
  show ne: ?N by simp
  show ?E
    by (rule C7_priority_score [of "pool2 1" "pool2 1" "[0, 1]" pool2,
          THEN conjunct2, THEN conjunct2, THEN mp, OF ne])
qed


section \<open>Routing and status of a single attempt: properties\<close>

lemma download_paper_effect:
  assumes "download_paper E p out s w = (res, s', w')"
  shows "(\<forall>q. journal_type (s' q) = journal_type (s q))
       \<and> (res = Inr True \<longrightarrow> download_status (s' p) = DOWNLOADED)
       \<and> (res = Inr False \<longrightarrow> download_status (s' p) = FAILED)
       \<and> (\<forall>e. res = Inl e \<longrightarrow> \<not> is_Exception e)"
  using assms
  by (auto simp: download_paper_def download_paper_except_def set_status_def mark_downloaded_def
        Let_def split: if_splits sum.splits prod.splits)

lemma download_single_paper_unfold:
  assumes a: "download_paper E p pdf_path (set_status p DOWNLOADING s) w = (ra, sa, wa)"
      and b: "download_paper E p pdf_path
                ((set_status p DOWNLOADING s)
                   (p := (set_status p DOWNLOADING s p)\<lparr>journal_type := NON_ELSEVIER\<rparr>)) w
              = (rb, sb, wb)"
  shows "download_single_paper E inst p pdf_path s w =
           single_finally p (single_except
             (if inst then after_download p (ra, sa, wa)
              else restore_journal_type p (journal_type (s p)) (after_download p (rb, sb, wb))))"
  using a b by (simp add: download_single_paper_def Let_def set_status_def)

text \<open>
  Claim C9. With institutional mode off, the journal type a paper has after
  \<^verbatim>\<open>_download_single_paper\<close> is the one it had before, whatever the downloaders do:
  succeed, fail, raise an \<^verbatim>\<open>Exception\<close> or raise past \<^verbatim>\<open>except Exception\<close>. This holds
  for every journal type, so in particular for an Elsevier paper.
\<close>

theorem C9_journal_type_restored:
  "journal_type (fst (snd (download_single_paper E False p pdf_path s w)) p) = journal_type (s p)"
proof -
  obtain ra sa wa where a: "download_paper E p pdf_path (set_status p DOWNLOADING s) w = (ra, sa, wa)"
    by (metis prod_cases3)
  obtain rb sb wb where b: "download_paper E p pdf_path
                ((set_status p DOWNLOADING s)
                   (p := (set_status p DOWNLOADING s p)\<lparr>journal_type := NON_ELSEVIER\<rparr>)) w
              = (rb, sb, wb)"
    by (metis prod_cases3)
  show ?thesis
    unfolding download_single_paper_unfold [OF a b]
    by (cases rb)
       (auto simp: single_finally_def single_except_def restore_journal_type_def
          after_download_def set_status_def)
qed

theorem C9_journal_type_restored_witness:
  "journal_type (pool2 0) = ELSEVIER
   \<and> journal_type (fst (snd (download_single_paper (recording_env always always) False 0
                                 demo_path pool2 [])) 0) = ELSEVIER"
  using C9_journal_type_restored [of "recording_env always always" 0 demo_path pool2 "[]"]
  by (simp add: pool2_def mk_paper_def)

text \<open>
  Claim C10. When \<^verbatim>\<open>_download_single_paper\<close> is over, the paper's status is not
  \<^verbatim>\<open>DOWNLOADING\<close>, also when an exception leaves the call; it is \<^verbatim>\<open>DOWNLOADED\<close> when the
  call returns \<^verbatim>\<open>True\<close> and \<^verbatim>\<open>FAILED\<close> when it returns \<^verbatim>\<open>False\<close>.
\<close>

theorem C10_status_settled:
  assumes "download_single_paper E inst p pdf_path s w = (res, s', w')"
  shows "download_status (s' p) \<noteq> DOWNLOADING
       \<and> (res = Inr True \<longrightarrow> download_status (s' p) = DOWNLOADED)
       \<and> (res = Inr False \<longrightarrow> download_status (s' p) = FAILED)"
proof -
  obtain ra sa wa where a: "download_paper E p pdf_path (set_status p DOWNLOADING s) w = (ra, sa, wa)"
    by (metis prod_cases3)
  obtain rb sb wb where b: "download_paper E p pdf_path
                ((set_status p DOWNLOADING s)
                   (p := (set_status p DOWNLOADING s p)\<lparr>journal_type := NON_ELSEVIER\<rparr>)) w
              = (rb, sb, wb)"
    by (metis prod_cases3)
  note ea = download_paper_effect [OF a] and eb = download_paper_effect [OF b]
  show ?thesis
  proof (cases inst)
    case True
    with assms ea show ?thesis
      unfolding download_single_paper_unfold [OF a b]
      by (cases ra)
         (auto simp: single_finally_def single_except_def after_download_def set_status_def
            split: if_splits)
  next
    case False
    with assms eb show ?thesis
      unfolding download_single_paper_unfold [OF a b]
      by (cases rb)
         (auto simp: single_finally_def single_except_def after_download_def set_status_def
            restore_journal_type_def split: if_splits)
  qed
qed

theorem C10_status_settled_witness:
  "fst (download_single_paper (recording_env always always) True 0 demo_path pool2 []) = Inr True
   \<and> download_status (fst (snd (download_single_paper (recording_env always always) True 0
                                    demo_path pool2 [])) 0) = DOWNLOADED"
proof -
  have d: "doi (pool2 0) \<noteq> []"
    by (simp add: pool2_def mk_paper_def)
  have r: "fst (download_single_paper (recording_env always always) True 0 demo_path pool2 [])
             = Inr True"
    using d
    by (simp add: download_single_paper_def download_paper_def download_paper_except_def
          Let_def set_status_def mark_downloaded_def recording_env_def single_finally_def
          single_except_def restore_journal_type_def after_download_def always_def)
  have "download_single_paper (recording_env always always) True 0 demo_path pool2 [] =
          (Inr True,
           fst (snd (download_single_paper (recording_env always always) True 0 demo_path pool2 [])),
           snd (snd (download_single_paper (recording_env always always) True 0 demo_path pool2 [])))"
    using r by (metis prod.collapse)
  from C10_status_settled [OF this] r show ?thesis
    by simp
qed

lemma is_elsevier_doi_nonempty: "is_elsevier_doi d \<Longrightarrow> d \<noteq> []"
  by (auto simp: is_elsevier_doi_def)

lemma demo_doi: "is_elsevier_doi ''10.1016/j.actamat.2020.01''"
  by (simp add: is_elsevier_doi_def lower_def lower_char_def elsevier_prefixes_def
        non_elsevier_prefixes_def)

text \<open>
  Claim C3. With institutional mode off the journal type is overridden for the attempt,
  but \<^verbatim>\<open>download_paper\<close> chooses the downloader by \<^verbatim>\<open>is_elsevier_doi(paper.doi)\<close> and
  never reads the journal type. So for every paper whose DOI has an Elsevier prefix the
  first downloader called in the attempt is the Elsevier one, here in the environment
  that records the calls: the attempt is not routed to Anna Archive.
\<close>

theorem C3_routed_by_doi:
  assumes "is_elsevier_doi (doi (s p))"
  shows "\<exists>rest. snd (snd (download_single_paper (recording_env e_ok a_ok) False p pdf_path s calls0))
                 = calls0 @ (ElsevierAPI, doi (s p)) # rest"
  using assms is_elsevier_doi_nonempty [OF assms]
  by (simp add: download_single_paper_def download_paper_def download_paper_except_def
        Let_def set_status_def mark_downloaded_def recording_env_def single_finally_def
        single_except_def restore_journal_type_def after_download_def)

theorem C3_routed_by_doi_witness:
  "is_elsevier_doi (doi (pool2 0))
   \<and> snd (snd (download_single_paper (recording_env always always) False 0 demo_path pool2 []))
       = [(ElsevierAPI, ''10.1016/j.actamat.2020.01'')]"
proof -
  have d: "doi (pool2 0) = ''10.1016/j.actamat.2020.01''"
    by (simp add: pool2_def mk_paper_def)
  have e: "is_elsevier_doi (doi (pool2 0))"
    unfolding d by (rule demo_doi)
  have "snd (snd (download_single_paper (recording_env always always) False 0 demo_path pool2 []))
       = [(ElsevierAPI, ''10.1016/j.actamat.2020.01'')]"
    using C3_routed_by_doi [of pool2 0 always always demo_path "[]", OF e] e d
    by (simp add: download_single_paper_def download_paper_def download_paper_except_def
        Let_def set_status_def mark_downloaded_def recording_env_def single_finally_def
        single_except_def restore_journal_type_def after_download_def always_def)
  with e show ?thesis by simp
qed


section \<open>Retrying: properties\<close>

lemma retry_loop_all_fail:
  assumes "\<forall>k. attempt \<le> k \<and> k < attempt + left \<longrightarrow> (\<exists>e. func k = Inl e \<and> is_Exception e)"
  shows "retry_loop left func max_retries delay attempt last_exception slept =
           (if left = 0 then Inl last_exception else func (attempt + left - 1),
            attempt + left,
            slept @ map (\<lambda>k. delay * 2 ^ k)
                      (filter (\<lambda>k. int k < max_retries - 1) [attempt..<attempt + left]))"
  using assms
proof (induction left arbitrary: attempt last_exception slept)
  case 0
  then show ?case by simp
next
  case (Suc left)
  have "attempt \<le> attempt \<and> attempt < attempt + Suc left"
    by simp
  with Suc.prems obtain e where e: "func attempt = Inl e" "is_Exception e"
    by blast
  have rest: "\<forall>k. Suc attempt \<le> k \<and> k < Suc attempt + left \<longrightarrow> (\<exists>e. func k = Inl e \<and> is_Exception e)"
    using Suc.prems by simp
  show ?case
    using e by (simp add: Suc.IH [OF rest] upt_conv_Cons del: upt_Suc)
qed

lemma backoff_indices:
  assumes "0 < max_retries"
  shows "filter (\<lambda>k. int k < max_retries - 1) [0..<nat max_retries] = [0..<nat max_retries - 1]"
proof -
  obtain n where n: "nat max_retries = Suc n"
    using assms by (metis Suc_pred zero_less_nat_eq)
  then have m: "max_retries = int (Suc n)"
    using assms by linarith
  have p: "(\<lambda>k. int k < max_retries - 1) = (\<lambda>k. k < n)"
    by (auto simp: m)
  have "filter (\<lambda>k. k < n) [0..<n] = [0..<n]"
    by (simp add: filter_id_conv)
  then show ?thesis
    unfolding p n by simp
qed

text \<open>
  Claim C4, as the code has it. \<^verbatim>\<open>retry_on_failure\<close> does not look at the error: when
  each of the \<open>max_retries\<close> attempts raises an \<^verbatim>\<open>Exception\<close>, whatever its message,
  exactly \<open>max_retries\<close> attempts are made, the wrapper sleeps \<open>delay * 2 ^ k\<close> after
  attempt \<open>k\<close> for every attempt but the last, and the last error is raised. An error
  whose message contains 403 is therefore retried like one that contains 503, as the
  counterexample shows: three attempts and two sleeps, not one attempt.
\<close>

theorem C4_every_error_retried:
  assumes "0 < max_retries"
      and "\<forall>k < nat max_retries. \<exists>msg. func k = Inl (Error msg)"
  shows "retry_on_failure max_retries delay func =
           (func (nat max_retries - 1), nat max_retries,
            map (\<lambda>k. delay * 2 ^ k) [0..<nat max_retries - 1])"
proof -
  have fails: "\<forall>k. 0 \<le> k \<and> k < 0 + nat max_retries \<longrightarrow> (\<exists>e. func k = Inl e \<and> is_Exception e)"
    using assms(2) by (metis add_0 is_Exception.simps(2))
  have pos: "nat max_retries \<noteq> 0"
    using assms(1) by simp
  show ?thesis
    unfolding retry_on_failure_def retry_loop_all_fail [OF fails]
    using pos by (simp add: backoff_indices [OF assms(1)])
qed

theorem C4_every_error_retried_witness:
  "retry_on_failure 3 1 (always_raising ''HTTP 503 Service Unavailable'') =
     (Inl (Error ''HTTP 503 Service Unavailable''), 3, [1, 2])"
proof -
  have a: "(0::int) < 3" by simp
  have b: "\<forall>k < nat 3. \<exists>msg. always_raising ''HTTP 503 Service Unavailable'' k = Inl (Error msg)"
    by (simp add: always_raising_def)
  have u: "[0..<2] = [0, Suc 0]"
    by (simp add: upt_rec)
  from C4_every_error_retried [OF a b, of 1] show ?thesis
    by (simp add: always_raising_def u)
qed

theorem C4_forbidden_retried_counterexample:
  "contains ''403'' ''HTTP 403 Forbidden''
   \<and> retry_on_failure 3 1 (always_raising ''HTTP 403 Forbidden'') =
       (Inl (Error ''HTTP 403 Forbidden''), 3, [1, 2])"
  by (simp add: retry_on_failure_def always_raising_def eval_nat_numeral)


section \<open>The hash archive's download steps: properties\<close>

text \<open>
  \<^verbatim>\<open>_download_from_url\<close> does validate what it accepts: whenever it reports success the
  destination holds a file with the PDF signature in its first ten bytes.
\<close>

lemma prefix_contains: "prefix n xs \<Longrightarrow> xs \<noteq> [] \<Longrightarrow> contains n xs"
  by (cases xs) auto

lemma download_from_url_validated:
  assumes "download_from_url net url output_path fs = (Inr (True, n), fs')"
  shows "\<exists>c. fs' output_path = Some c \<and> contains pdf_magic (take 10 c)"
proof -
  have sig: "contains pdf_magic (take 10 c)" if "prefix pdf_magic c" for c
  proof -
    from that obtain r where "c = pdf_magic @ r"
      by (auto simp: prefix_def)
    then show ?thesis
      by (simp add: pdf_magic_def)
  qed
  from assms show ?thesis
    by (auto simp: download_from_url_def Let_def sig split: sum.splits if_splits)
qed

lemma html_page_no_signature:
  "\<not> prefix pdf_magic html_page \<and> \<not> contains pdf_magic (take 10 html_page)"
  by (simp add: html_page_def pdf_magic_def)

lemma html_type_no_pdf: "\<not> contains ''application/pdf'' (lower ''text/html'')"
  by (simp add: lower_def lower_char_def)

text \<open>
  Claim C6. \<^verbatim>\<open>_download_by_md5\<close> accepts a response by its size alone: whenever the
  first endpoint answers with more than 1000 bytes, the body is written to the
  destination and success is reported, with no read-back and no deletion, whatever the
  body and the content type are. The witness is an HTML page of 1215 bytes without the
  PDF signature, served as \<^verbatim>\<open>text/html\<close>: it is reported as a download and stays on disk.
\<close>

theorem C6_md5_accepts_by_size:
  assumes "net (base_url @ ''/md5/'' @ md5_hash) = Inr response"
      and "1000 < length (content response)"
  shows "download_by_md5 net md5_hash output_path fs =
           (Inr (True, int (length (content response))),
            fs(output_path := Some (content response)))"
  using assms by (simp add: download_by_md5_def Let_def)

theorem C6_md5_accepts_by_size_witness:
  "\<not> prefix pdf_magic html_page
   \<and> \<not> contains pdf_magic (take 10 html_page)
   \<and> \<not> contains ''application/pdf'' (lower ''text/html'')
   \<and> download_by_md5 html_net demo_md5 demo_path Map.empty =
        (Inr (True, 1215), Map.empty(demo_path := Some html_page))"
proof -
  have a: "html_net (base_url @ ''/md5/'' @ demo_md5) = Inr \<lparr>content = html_page, content_type = ''text/html''\<rparr>"
    by (simp add: html_net_def)
  have b: "1000 < length (content \<lparr>content = html_page, content_type = ''text/html''\<rparr>)"
    by (simp add: html_page_def)
  from C6_md5_accepts_by_size [of html_net demo_md5 "\<lparr>content = html_page, content_type = ''text/html''\<rparr>" demo_path Map.empty, OF a b]
  have "download_by_md5 html_net demo_md5 demo_path Map.empty =
        (Inr (True, 1215), Map.empty(demo_path := Some html_page))"
    by (simp add: html_page_def)
  with html_page_no_signature html_type_no_pdf show ?thesis
    by blast
qed



section \<open>The orchestrator: properties\<close>

text \<open>
  On a non-empty pool and in a quiet environment \<^verbatim>\<open>ensure_target_downloads\<close> returns a
  list, whatever the downloads do: failed attempts are not errors of the batch.
\<close>

lemma download_paper_returns:
  assumes q: "quiet E"
  shows "\<exists>b s' w'. download_paper E p out s w = (Inr b, s', w')"
proof -
  have e: "is_Exception x" if "elsevier_download_pdf E paper out w = (Inl x, w')" for paper out w x w'
    using q that unfolding quiet_def by (metis fst_conv sum.case(1))
  have a: "is_Exception x" if "anna_download_pdf E paper out w = (Inl x, w')" for paper out w x w'
    using q that unfolding quiet_def by (metis fst_conv sum.case(1))
  show ?thesis
    by (auto simp: download_paper_def download_paper_except_def Let_def e a
          split: prod.splits sum.splits if_splits)
qed

lemma download_single_paper_returns:
  assumes q: "quiet E"
  shows "\<exists>b s' w'. download_single_paper E inst p pdf_path s w = (Inr b, s', w')"
proof -
  from download_paper_returns [OF q]
  obtain ba sa wa where ra: "download_paper E p pdf_path (set_status p DOWNLOADING s) w = (Inr ba, sa, wa)"
    by blast
  from download_paper_returns [OF q]
  obtain bb sb wb where rb: "download_paper E p pdf_path
                ((set_status p DOWNLOADING s)
                   (p := (set_status p DOWNLOADING s p)\<lparr>journal_type := NON_ELSEVIER\<rparr>)) w
              = (Inr bb, sb, wb)"
    by blast
  show ?thesis
    unfolding download_single_paper_unfold [OF ra rb]
    by (auto simp: single_finally_def single_except_def after_download_def restore_journal_type_def)
qed

lemma priority_loop_returns:
  assumes q: "quiet E"
  shows "\<exists>ds s' w'. priority_loop E inst workspace_dir material_id target_count ps acc s w
                        = (Inr ds, s', w')"
proof (induction ps arbitrary: acc s w)
  case Nil
  then show ?case by simp
next
  case (Cons p ps)
  define s1 where "s1 = set_status p DOWNLOADING s"
  define pdf_path where "pdf_path = pdf_path_of workspace_dir material_id (s1 p)"
  obtain w1 where mk: "mkdir E (parent_dir pdf_path) w = (None, w1)"
    using q unfolding quiet_def by (metis prod.collapse)
  from download_single_paper_returns [OF q]
  obtain b s2 w2 where run: "download_single_paper E inst p pdf_path s1 w1 = (Inr b, s2, w2)"
    by blast
  show ?case
    using mk run Cons.IH unfolding s1_def pdf_path_def
    by (simp add: Let_def)
qed

lemma supplementation_loop_returns:
  assumes q: "quiet E"
  shows "\<exists>ds s' w'. supplementation_loop E inst workspace_dir material_id needed_count ps acc s w
                        = (Inr ds, s', w')"
proof (induction ps arbitrary: acc s w)
  case Nil
  then show ?case by simp
next
  case (Cons p ps)
  define s1 where "s1 = set_status p DOWNLOADING s"
  define pdf_path where "pdf_path = pdf_path_of workspace_dir material_id (s1 p)"
  from download_single_paper_returns [OF q]
  obtain b s2 w2 where run: "download_single_paper E inst p pdf_path s1 w = (Inr b, s2, w2)"
    by blast
  show ?case
    using run Cons.IH unfolding s1_def pdf_path_def
    by (simp add: Let_def)
qed

lemma ensure_target_downloads_returns:
  assumes q: "quiet E"
      and ne: "papers \<noteq> []"
  shows "\<exists>ds s' w'. ensure_target_downloads E inst papers workspace_dir material_id target_count s w
                        = (Inr ds, s', w')"
proof -
  from priority_loop_returns [OF q]
  obtain pd s1 w1 where p1: "priority_download_phase E inst papers workspace_dir material_id
                               target_count s w = (Inr pd, s1, w1)"
    unfolding priority_download_phase_def calculate_priority_scores_nonempty [OF ne]
    by (simp only: prod.case sum.case) blast
  show ?thesis
  proof (cases "target_count \<le> int (length pd)")
    case True
    with p1 show ?thesis
      by (simp add: ensure_target_downloads_def)
  next
    case False
    define remaining where "remaining = filter (\<lambda>p. \<not> paper_in s1 p pd) papers"
    define needed where "needed = target_count - int (length pd)"
    have "\<exists>sd s2 w2. supplementation_phase E inst remaining workspace_dir material_id needed s1 w1
                         = (Inr sd, s2, w2)"
    proof (cases "remaining = [] \<or> needed \<le> 0")
      case True
      then show ?thesis
        by (auto simp: supplementation_phase_def)
    next
      case False
      then have r: "remaining \<noteq> []"
        by simp
      from supplementation_loop_returns [OF q] False show ?thesis
        unfolding supplementation_phase_def calculate_priority_scores_nonempty [OF r]
        by simp
    qed
    then obtain sd s2 w2 where p2: "supplementation_phase E inst remaining workspace_dir
                                      material_id needed s1 w1 = (Inr sd, s2, w2)"
      by blast
    have sel: "\<exists>r s3. precise_selection (pd @ sd) target_count s2 = (Inr r, s3)"
    proof (cases "int (length (pd @ sd)) \<le> target_count")
      case True
      then show ?thesis
        by (simp add: precise_selection_def)
    next
      case over: False
      with False have "pd @ sd \<noteq> []"
        by auto
      from calculate_priority_scores_nonempty [OF this] over show ?thesis
        by (simp add: precise_selection_def Let_def)
    qed
    from p1 p2 False sel show ?thesis
      by (auto simp: ensure_target_downloads_def Let_def remaining_def needed_def)
  qed
qed

lemma recording_env_quiet: "quiet (recording_env e_ok a_ok)"
  by (simp add: quiet_def recording_env_def)

text \<open>
  Claim C5. On the empty pool \<^verbatim>\<open>ensure_target_downloads\<close> raises: the priority phase
  scores the empty list, and the log line of \<^verbatim>\<open>_calculate_priority_scores\<close> reads
  \<^verbatim>\<open>scored_papers[0]\<close>. This holds for every environment, mode, target and store.
\<close>

theorem C5_empty_pool_raises:
  "ensure_target_downloads E inst [] workspace_dir material_id target_count s w
     = (Inl IndexError, s, w)"
  by (simp add: ensure_target_downloads_def priority_download_phase_def
        calculate_priority_scores_def)

theorem C5_empty_pool_raises_witness:
  "ensure_target_downloads (recording_env always always) False [] ''out'' ''mp-149'' 3 pool2 []
     = (Inl IndexError, pool2, [])"
  using C5_empty_pool_raises [of "recording_env always always" False "''out''" "''mp-149''" 3 pool2 "[]"] .

lemma single_attempt_succeeds:
  assumes "doi (s p) \<noteq> []"
  shows "\<exists>s' w'. download_single_paper (recording_env always always) inst p pdf_path s w
                   = (Inr True, s', w')
               \<and> paper_index (s' p) = paper_index (s p)"
  using assms
  by (simp add: download_single_paper_def download_paper_def download_paper_except_def
        Let_def set_status_def mark_downloaded_def recording_env_def single_finally_def
        single_except_def restore_journal_type_def after_download_def always_def)

lemma demo_scored:
  "calculate_priority_scores [0, 1] pool2 = (Inr [1, 0], fold set_priority [0, 1] pool2)"
  by (simp add: calculate_priority_scores_def Let_def set_priority_def pool2_def mk_paper_def
        score_of_def)

lemma demo_scored_paper:
  "doi (fold set_priority [0, 1] pool2 1) \<noteq> [] \<and> paper_index (fold set_priority [0, 1] pool2 1) = 2"
  by (simp add: set_priority_def pool2_def mk_paper_def)

text \<open>
  Claim C1. A pool of two papers, target 1, every attempt succeeding. The priority phase
  downloads the second paper (score 13 against 9.2) and meets the target, so
  \<^verbatim>\<open>ensure_target_downloads\<close> returns \<^verbatim>\<open>priority_downloads[:1]\<close> at once: one paper,
  status \<^verbatim>\<open>DOWNLOADED\<close>, but with the index 2 it had in the pool. No phase assigns
  \<^verbatim>\<open>paper_index\<close> on this path, so the indices of the result are not 1..1.
\<close>

theorem C1_index_not_reassigned:
  "\<exists>s' w'. ensure_target_downloads (recording_env always always) False [0, 1] ''out'' ''mp-149'' 1
              pool2 [] = (Inr [1], s', w')
     \<and> download_status (s' 1) = DOWNLOADED
     \<and> paper_index (s' 1) = 2"
proof -
  define E where "E = recording_env always always"
  define s1 where "s1 = fold set_priority [0, 1] pool2"
  define s2 where "s2 = set_status 1 DOWNLOADING s1"
  define pdf_path where "pdf_path = pdf_path_of ''out'' ''mp-149'' (s2 1)"
  have d: "doi (s2 1) \<noteq> []" and i: "paper_index (s2 1) = 2"
    using demo_scored_paper by (simp_all add: s2_def s1_def set_status_def)
  from single_attempt_succeeds [of s2 1 False pdf_path "[]", OF d]
  obtain s3 w3 where run: "download_single_paper E False 1 pdf_path s2 [] = (Inr True, s3, w3)"
    and keep: "paper_index (s3 1) = paper_index (s2 1)"
    unfolding E_def by blast
  define s4 where "s4 = mark_downloaded 1 (file_name pdf_path) (stat_size E pdf_path w3) s3"
  have mk: "mkdir E (parent_dir pdf_path) [] = (None, [])"
    by (simp add: E_def recording_env_def)
  have loop: "priority_loop E False ''out'' ''mp-149'' 1 [1, 0] [] s1 [] = (Inr [1], s4, w3)"
    using run mk unfolding s4_def pdf_path_def s2_def by (simp add: Let_def)
  have phase: "priority_download_phase E False [0, 1] ''out'' ''mp-149'' 1 pool2 [] = (Inr [1], s4, w3)"
    by (simp only: priority_download_phase_def demo_scored s1_def [symmetric] prod.case sum.case loop)
  have all: "ensure_target_downloads E False [0, 1] ''out'' ''mp-149'' 1 pool2 [] = (Inr [1], s4, w3)"
  proof -
    have len: "(1::int) \<le> int (length [1::nat])"
      by simp
    have sl: "slice_to 1 [1::nat] = [1]"
      by (simp add: slice_to_def)
    show ?thesis
      by (simp only: ensure_target_downloads_def phase prod.case sum.case len sl if_True)
  qed
  have "download_status (s4 1) = DOWNLOADED" and "paper_index (s4 1) = 2"
    using keep i by (simp_all add: s4_def mark_downloaded_def)
  with all show ?thesis
    unfolding E_def by blast
qed

theorem C1_index_not_reassigned_witness:
  "\<exists>s' w'. ensure_target_downloads (recording_env always always) False [0, 1] ''out'' ''mp-149'' 1
              pool2 [] = (Inr [1], s', w')
     \<and> paper_index (s' 1) \<noteq> 1"
  using C1_index_not_reassigned by force


section \<open>Rate limiting: properties\<close>

text \<open>
  The float operations on the readings of the example: the second call finds the first
  one 0.20000000000000004 s old, asks for a sleep of 59.8 s, and a clock that moves on
  by exactly that reads 60.099999999999994 at the wake-up, which the test
  \<^verbatim>\<open>now - call_time < 60\<close> still counts as inside the window of the first call.
\<close>

lemmas float_defs = fsub_def fadd_def round_double_def binade_def pow2_def round_half_even_def
  Let_def

lemma gap_of_readings: "fsub reading_b reading_a = reading_gap"
  by (simp add: float_defs reading_a_def reading_b_def reading_gap_def)

lemma nap_of_gap: "fsub 60 reading_gap = reading_nap"
  by (simp add: float_defs reading_gap_def reading_nap_def)

lemma wake_of_nap: "fadd reading_b reading_nap = reading_c"
  by (simp add: float_defs reading_b_def reading_nap_def reading_c_def)

lemma still_recent: "fsub reading_c reading_a < 60"
  by (simp add: float_defs reading_a_def reading_c_def)

lemma reading_facts:
  "reading_gap < 60 \<and> 0 < reading_nap \<and> \<not> 30 < fsub reading_b 0
   \<and> reading_a \<le> reading_b \<and> reading_b \<le> reading_c \<and> reading_c - reading_a < 60"
  by (simp add: float_defs reading_a_def reading_b_def reading_c_def reading_gap_def
        reading_nap_def)

lemma first_call_recorded:
  "wait_if_needed reading_a reading_a (RateLimiter_init 1) =
     (Inr (), \<lparr>calls_per_minute = 1, calls = [reading_a], last_warning = 0\<rparr>)"
  by (simp add: wait_if_needed_def RateLimiter_init_def recent_def)

lemma second_call_recorded:
  "wait_if_needed reading_b reading_c \<lparr>calls_per_minute = 1, calls = [reading_a], last_warning = 0\<rparr> =
     (Inr (), \<lparr>calls_per_minute = 1, calls = [reading_a, reading_c], last_warning = 0\<rparr>)"
  using reading_facts
  by (simp add: wait_if_needed_def recent_def gap_of_readings nap_of_gap still_recent)

text \<open>
  A wake-up that is early by the clock has the same effect in whole seconds, where no
  operation rounds: the call is recorded 59 s after the first one.
\<close>

lemma whole_seconds: "fsub 0 0 = 0 \<and> fsub 60 0 = 60 \<and> fsub 59 0 = 59"
  by (simp add: float_defs)

lemma early_wake_recorded:
  "run_calls [(0, 0), (0, 59)] (RateLimiter_init 1) [] = [0, 59]"
  by (simp add: wait_if_needed_def RateLimiter_init_def recent_def whole_seconds)

text \<open>
  Claim C8. With a ceiling of one call per minute, a first call at 0.1 and a second call
  that enters at 0.30000000000000004 and sleeps exactly as long as it asked for, both
  calls are recorded, at 0.1 and at 60.099999999999994: two recorded timestamps less
  than 60 seconds apart, both in the window of the 60 seconds up to the second one.
  \<^verbatim>\<open>wait_if_needed\<close> sleeps once and then records without looking at the count again.
\<close>

theorem C8_ceiling_exceeded:
  "run_calls [(reading_a, reading_a), (reading_b, reading_c)] (RateLimiter_init 1) []
     = [reading_a, reading_c]
   \<and> reading_c = fadd reading_b (fsub 60 (fsub reading_b reading_a))
   \<and> reading_a \<le> reading_c \<and> reading_c - reading_a < 60
   \<and> length (filter (\<lambda>c. reading_c - 60 < c \<and> c \<le> reading_c) [reading_a, reading_c]) = 2"
proof -
  have run: "run_calls [(reading_a, reading_a), (reading_b, reading_c)] (RateLimiter_init 1) []
     = [reading_a, reading_c]"
    by (simp add: first_call_recorded second_call_recorded)
  have wake: "reading_c = fadd reading_b (fsub 60 (fsub reading_b reading_a))"
    by (simp only: gap_of_readings nap_of_gap wake_of_nap)
  have near: "reading_a \<le> reading_c" "reading_c - reading_a < 60"
    using reading_facts by simp_all
  then have "length (filter (\<lambda>c. reading_c - 60 < c \<and> c \<le> reading_c) [reading_a, reading_c]) = 2"
    by simp
  with run wake near show ?thesis
    by blast
qed

theorem C8_ceiling_exceeded_witness:
  "length (run_calls [(reading_a, reading_a), (reading_b, reading_c)] (RateLimiter_init 1) []) = 2"
  using C8_ceiling_exceeded by simp



section \<open>Precise selection: properties\<close>

lemma skip_fold:
  assumes "distinct xs"
      and "\<forall>p \<in> set xs. \<forall>q \<in> set sel. q \<noteq> p \<longrightarrow> s q \<noteq> s p"
  shows "fold (skip_unselected sel) xs s =
           (\<lambda>p. if p \<in> set xs \<and> p \<notin> set sel then (s p)\<lparr>download_status := SKIPPED\<rparr> else s p)"
  using assms
proof (induction xs arbitrary: s)
  case Nil
  then show ?case by simp
next
  case (Cons x xs)
  show ?case
  proof (cases "x \<in> set sel")
    case True
    then have same: "skip_unselected sel x s = s"
      by (auto simp: skip_unselected_def paper_in_def list_ex_iff)
    from Cons.prems have "distinct xs" "\<forall>p \<in> set xs. \<forall>q \<in> set sel. q \<noteq> p \<longrightarrow> s q \<noteq> s p"
      by auto
    from Cons.IH [OF this] True show ?thesis
      by (auto simp: same fun_eq_iff)
  next
    case False
    with Cons.prems(2) have "\<not> paper_in s x sel"
      by (auto simp: paper_in_def list_ex_iff)
    then have upd: "skip_unselected sel x s = s(x := (s x)\<lparr>download_status := SKIPPED\<rparr>)"
      by (simp add: skip_unselected_def set_status_def)
    define s' where "s' = s(x := (s x)\<lparr>download_status := SKIPPED\<rparr>)"
    from Cons.prems False
    have "distinct xs" "\<forall>p \<in> set xs. \<forall>q \<in> set sel. q \<noteq> p \<longrightarrow> s' q \<noteq> s' p"
      by (auto simp: s'_def)
    note ih = Cons.IH [OF this]
    from Cons.prems(1) have fresh: "x \<notin> set xs"
      by simp
    have "fold (skip_unselected sel) (x # xs) s = fold (skip_unselected sel) xs s'"
      by (simp add: upd s'_def)
    also note ih
    also have "(\<lambda>p. if p \<in> set xs \<and> p \<notin> set sel then (s' p)\<lparr>download_status := SKIPPED\<rparr> else s' p)
                 = (\<lambda>p. if p \<in> set (x # xs) \<and> p \<notin> set sel
                        then (s p)\<lparr>download_status := SKIPPED\<rparr> else s p)"
      using fresh False by (auto simp: s'_def fun_eq_iff)
    finally show ?thesis .
  qed
qed

lemma index_fold_frame:
  "p \<notin> set sel \<Longrightarrow> fold set_index (List.enumerate k sel) s p = s p"
  by (induction sel arbitrary: k s) (auto simp: set_index_def)

lemma index_fold_status:
  "download_status (fold set_index (List.enumerate k sel) s p) = download_status (s p)
   \<and> priority_score (fold set_index (List.enumerate k sel) s p) = priority_score (s p)"
proof (induction sel arbitrary: k s)
  case Nil
  then show ?case by simp
next
  case (Cons x sel)
  show ?case
    by (simp add: Cons.IH) (simp add: set_index_def)
qed

lemma index_fold_indices:
  assumes "distinct sel"
  shows "map (\<lambda>p. paper_index (fold set_index (List.enumerate k sel) s p)) sel
           = map int [k..<k + length sel]"
  using assms
proof (induction sel arbitrary: k s)
  case Nil
  then show ?case by simp
next
  case (Cons x sel)
  then have x: "x \<notin> set sel" and d: "distinct sel"
    by auto
  have here: "paper_index (fold set_index (List.enumerate (Suc k) sel) (set_index (k, x) s) x) = int k"
    by (simp add: index_fold_frame [OF x]) (simp add: set_index_def)
  have "[k..<k + length (x # sel)] = k # [Suc k..<Suc k + length sel]"
    by (subst upt_rec) simp
  then show ?case
    using Cons.IH [OF d, of "Suc k" "set_index (k, x) s"] here by simp
qed

lemma demo_precise_selection:
  "fst (precise_selection [0, 1] 1 downloaded2) = Inr [1]"
  by (simp add: precise_selection_def calculate_priority_scores_def Let_def set_priority_def
        downloaded2_def pool2_def mk_paper_def score_of_def slice_to_def)

text \<open>
  Claim C2, as the code has it. Let \<^verbatim>\<open>all_downloads\<close> hold \<open>M\<close> downloaded papers, pairwise
  different once scored (no object twice, no two objects equal field by field), and let
  the target \<open>N\<close> satisfy \<open>0 \<le> N < M\<close>. Then \<^verbatim>\<open>_precise_selection\<close> returns \<open>N\<close> of the
  papers, none of them scored lower than a paper left out; the selected papers stay
  \<^verbatim>\<open>DOWNLOADED\<close>, every other paper becomes \<^verbatim>\<open>SKIPPED\<close>, which makes exactly \<open>M - N\<close>
  skipped papers; and the selected papers, in descending score order, get the indices 1
  to \<open>N\<close>. Without the difference the claim fails: \<^verbatim>\<open>paper not in selected\<close> compares
  dataclasses field by field, so of two equal papers with target 1 the one left out is
  not skipped, as the counterexample shows.
\<close>

theorem C2_precise_selection:
  assumes n0: "0 \<le> N"
      and more: "N < int (length rs)"
      and diff: "distinct (map (\<lambda>p. (s p)\<lparr>priority_score := score_of (s p)\<rparr>) rs)"
      and dl: "\<forall>p \<in> set rs. download_status (s p) = DOWNLOADED"
  shows "\<exists>selected s'. precise_selection rs N s = (Inr selected, s')
           \<and> length selected = nat N \<and> set selected \<subseteq> set rs \<and> distinct selected
           \<and> (\<forall>a \<in> set selected. \<forall>b \<in> set rs. b \<notin> set selected \<longrightarrow> score_of (s b) \<le> score_of (s a))
           \<and> (\<forall>p \<in> set selected. download_status (s' p) = DOWNLOADED)
           \<and> (\<forall>p \<in> set rs. p \<notin> set selected \<longrightarrow> download_status (s' p) = SKIPPED)
           \<and> length (filter (\<lambda>p. download_status (s' p) = SKIPPED) rs) = length rs - nat N
           \<and> map (\<lambda>p. paper_index (s' p)) selected = map int [1..<Suc (nat N)]
           \<and> sorted_wrt (\<lambda>a b. priority_score (s' b) \<le> priority_score (s' a)) selected
           \<and> (\<forall>p \<in> set rs. priority_score (s' p) = score_of (s p))"
proof -
  define s1 where "s1 = fold set_priority rs s"
  define scored where "scored = sort_key (\<lambda>p. - priority_score (s1 p)) rs"
  define selected where "selected = take (nat N) scored"
  define s2 where "s2 = fold (skip_unselected selected) rs s1"
  define s3 where "s3 = fold set_index (List.enumerate 1 selected) s2"
  have ne: "rs \<noteq> []"
    using n0 more by auto
  have s1: "s1 p = (s p)\<lparr>priority_score := score_of (s p)\<rparr>" if "p \<in> set rs" for p
    using that by (simp add: s1_def fold_set_priority)
  have drs: "distinct rs"
    using diff by (simp add: distinct_map)
  have inj: "s1 q \<noteq> s1 p" if "p \<in> set rs" "q \<in> set rs" "q \<noteq> p" for p q
  proof -
    from diff have "inj_on (\<lambda>p. (s p)\<lparr>priority_score := score_of (s p)\<rparr>) (set rs)"
      by (simp add: distinct_map)
    with that have "(s q)\<lparr>priority_score := score_of (s q)\<rparr> \<noteq> (s p)\<lparr>priority_score := score_of (s p)\<rparr>"
      by (auto dest: inj_onD)
    then show ?thesis
      using that by (simp add: s1)
  qed
  have run: "precise_selection rs N s = (Inr selected, s3)"
    using more n0 calculate_priority_scores_nonempty [OF ne, of s]
    by (simp add: precise_selection_def Let_def slice_to_def s1_def scored_def selected_def
          s2_def s3_def)
  have perm: "mset scored = mset rs"
    by (simp add: scored_def)
  then have sset: "set scored = set rs" and slen: "length scored = length rs"
    by (metis set_mset_mset, metis size_mset)
  have dsc: "distinct scored"
    using perm drs by (metis distinct_count_atmost_1 set_mset_mset)
  have len: "length selected = nat N"
    using more n0 by (simp add: selected_def slen)
  have sub: "set selected \<subseteq> set rs"
    unfolding selected_def using set_take_subset [of "nat N" scored] sset by simp
  have dsel: "distinct selected"
    unfolding selected_def using dsc by simp
  have s2: "s2 = (\<lambda>p. if p \<in> set rs \<and> p \<notin> set selected
                       then (s1 p)\<lparr>download_status := SKIPPED\<rparr> else s1 p)"
  proof -
    have "\<forall>p \<in> set rs. \<forall>q \<in> set selected. q \<noteq> p \<longrightarrow> s1 q \<noteq> s1 p"
      using sub inj by blast
    then show ?thesis
      unfolding s2_def by (rule skip_fold [OF drs])
  qed
  have st3: "download_status (s3 p) = download_status (s2 p)"
    and pr3: "priority_score (s3 p) = priority_score (s2 p)" for p
    by (simp_all add: s3_def index_fold_status)
  have kept: "download_status (s3 p) = DOWNLOADED" if "p \<in> set selected" for p
    using that sub dl by (auto simp: st3 s2 s1)
  have skipped: "download_status (s3 p) = SKIPPED" if "p \<in> set rs" "p \<notin> set selected" for p
    using that by (simp add: st3 s2)
  have prio: "priority_score (s3 p) = score_of (s p)" if "p \<in> set rs" for p
    using that by (simp add: pr3 s2 s1)
  have "filter (\<lambda>p. download_status (s3 p) = SKIPPED) rs = filter (\<lambda>p. p \<notin> set selected) rs"
    using kept skipped by (intro filter_cong) auto
  moreover have "length (filter (\<lambda>p. p \<notin> set selected) rs) = card (set rs - set selected)"
  proof -
    have "{p. p \<notin> set selected} \<inter> set rs = set rs - set selected"
      by auto
    then show ?thesis
      using drs by (simp add: distinct_length_filter)
  qed
  moreover have "card (set rs - set selected) = card (set rs) - card (set selected)"
    using sub by (simp add: card_Diff_subset)
  ultimately have count: "length (filter (\<lambda>p. download_status (s3 p) = SKIPPED) rs) = length rs - nat N"
    using drs dsel len by (simp add: distinct_card)
  have desc1: "sorted_wrt (\<lambda>a b. priority_score (s1 b) \<le> priority_score (s1 a)) scored"
    unfolding scored_def by (rule sorted_descending)
  have split: "scored = selected @ drop (nat N) scored"
    by (simp add: selected_def)
  have best: "score_of (s b) \<le> score_of (s a)"
    if "a \<in> set selected" "b \<in> set rs" "b \<notin> set selected" for a b
  proof -
    from that sset split have "b \<in> set (drop (nat N) scored)"
      by (metis Un_iff set_append)
    with desc1 that(1) have "priority_score (s1 b) \<le> priority_score (s1 a)"
      by (subst (asm) split) (auto simp: sorted_wrt_append)
    with that sub show ?thesis
      by (auto simp: s1)
  qed
  have "sorted_wrt (\<lambda>a b. priority_score (s1 b) \<le> priority_score (s1 a)) selected"
    using desc1 by (subst (asm) split) (simp add: sorted_wrt_append)
  moreover have "priority_score (s3 p) = priority_score (s1 p)" if "p \<in> set selected" for p
    using that sub by (auto simp: prio s1)
  ultimately have desc: "sorted_wrt (\<lambda>a b. priority_score (s3 b) \<le> priority_score (s3 a)) selected"
    by (auto elim!: sorted_wrt_mono_rel [rotated])
  have idx: "map (\<lambda>p. paper_index (s3 p)) selected = map int [1..<Suc (nat N)]"
    unfolding s3_def using index_fold_indices [OF dsel, of 1 s2] by (simp add: len)
  from run len sub dsel best kept skipped count idx desc prio show ?thesis
    by blast
qed

theorem C2_precise_selection_witness:
  "\<exists>selected s'. precise_selection [0, 1] 1 downloaded2 = (Inr selected, s')
      \<and> length selected = 1
      \<and> length (filter (\<lambda>p. download_status (s' p) = SKIPPED) [0, 1]) = 1
      \<and> map (\<lambda>p. paper_index (s' p)) selected = [1]"
proof -
  have a: "(0::int) \<le> 1"
    by simp
  have b: "1 < int (length [0::ref, 1])"
    by simp
  have c: "distinct (map (\<lambda>p. (downloaded2 p)\<lparr>priority_score := score_of (downloaded2 p)\<rparr>) [0, 1])"
    by (simp add: downloaded2_def pool2_def mk_paper_def)
  have d: "\<forall>p \<in> set [0, 1]. download_status (downloaded2 p) = DOWNLOADED"
    by (simp add: downloaded2_def)
  from C2_precise_selection [OF a b c d]
  obtain selected s' where r: "precise_selection [0, 1] 1 downloaded2 = (Inr selected, s')"
    and l: "length selected = nat 1"
    and k: "length (filter (\<lambda>p. download_status (s' p) = SKIPPED) [0, 1]) = length [0::ref, 1] - nat 1"
    and i: "map (\<lambda>p. paper_index (s' p)) selected = map int [1..<Suc (nat 1)]"
    by blast
  from l have l': "length selected = 1"
    by simp
  from k have k': "length (filter (\<lambda>p. download_status (s' p) = SKIPPED) [0, 1]) = 1"
    by simp
  from i have i': "map (\<lambda>p. paper_index (s' p)) selected = [1]"
    by simp
  show ?thesis
    by (rule exI [of _ selected], rule exI [of _ s']) (intro conjI r l' k' i')
qed

theorem C2_equal_papers_counterexample:
  "1 < int (length [0 :: ref, 1])
   \<and> download_status (twins 0) = DOWNLOADED \<and> download_status (twins 1) = DOWNLOADED
   \<and> fst (precise_selection [0, 1] 1 twins) = Inr [0]
   \<and> download_status (snd (precise_selection [0, 1] 1 twins) 1) = DOWNLOADED
   \<and> filter (\<lambda>p. download_status (snd (precise_selection [0, 1] 1 twins) p) = SKIPPED) [0, 1] = []"
  by (simp add: precise_selection_def calculate_priority_scores_def Let_def set_priority_def
        twins_def mk_paper_def score_of_def slice_to_def skip_unselected_def paper_in_def
        set_index_def set_status_def)


section \<open>Destination paths and slices: examples\<close>

text \<open>The formatting functions and the slice, run on small inputs.\<close>

lemma demo_pdf_path:
  "pdf_path_of ''out'' ''mp-149'' (pool2 0) =
     \<lparr>parent_dir = ''out/mp-149-pdf'', file_name = ''paper_01_Thermal_transport.pdf''\<rparr>"
  by (simp add: pdf_path_of_def fmt_02d_def safe_filename_def unsafe_chars_def is_space_def
        pool2_def mk_paper_def)

lemma demo_safe_filename: "safe_filename ''a/b:  c*d'' = ''a_b__c_d''"
  by (simp add: safe_filename_def unsafe_chars_def is_space_def)

lemma demo_fmt: "fmt_02d 7 = ''07'' \<and> fmt_02d 12 = ''12'' \<and> fmt_02d 123 = ''123'' \<and> fmt_02d (- 5) = ''-5''"
  by (simp add: fmt_02d_def)

lemma slice_examples: "slice_to 2 [a, b, c] = [a, b] \<and> slice_to (- 1) [a, b, c] = [a, b] \<and> slice_to 5 [a, b, c] = [a, b, c]"
  by (simp add: slice_to_def)


end
